theory Spec2Isabelle
  imports Main "HOL-Library.Word"
begin

section \<open>The Simon game: state, timers and handlers of game.js\<close>

text \<open>
  The module-level variables of \<^verbatim>\<open>game.js\<close> become the fields of one record, and every
  handler becomes a function from the record to the updated record. Three things that
  JavaScript leaves implicit are written out:

  \<^item> \<^bold>\<open>Arrays are objects.\<close> The variable \<^verbatim>\<open>sequence\<close> holds a reference;
    \<^verbatim>\<open>sequence = []\<close> allocates a new array, \<^verbatim>\<open>sequence.push\<close> mutates the array in
    place, and \<^verbatim>\<open>playSequence(sequence)\<close> keeps the reference it was given across
    its \<^verbatim>\<open>await\<close>s. The record therefore has a store \<open>heap\<close> from references to
    array contents, and \<open>sequenceRef\<close> is the reference held by the variable.
  \<^item> \<^bold>\<open>Timers.\<close> \<^verbatim>\<open>setTimeout\<close> adds a pending task with its due time to \<open>timers\<close>;
    nothing in the source ever removes a pending round task (there is no
    \<^verbatim>\<open>clearTimeout\<close> for them). A task leaves the list when it fires.
  \<^item> \<^bold>\<open>Time and chance are inputs.\<close> \<^verbatim>\<open>Date.now()\<close> is the argument \<open>now\<close> of a
    handler, and the pad drawn by \<^verbatim>\<open>Math.random\<close> in \<^verbatim>\<open>nextRound\<close> is the argument
    \<open>next\<close>.

  Sound, the \<^verbatim>\<open>active\<close> class of a pad, the live region text, the mute button and the
  rules dialog write none of the game variables and are left out. The elements of the
  game-over overlay are taken to exist in the page, so that \<^verbatim>\<open>showGameOverOverlay\<close>
  shows the final score and the retry button is wired. When the page loads, \<^verbatim>\<open>localStorage\<close> is
  taken to hold nothing or a non-negative integer below \<open>2 ^ 53\<close>, the integers that
  \<^verbatim>\<open>Number\<close> reads without rounding; it is taken to accept writes.
\<close>

text \<open>
  The colours of \<^verbatim>\<open>PADS\<close>. A pad press carries one of them: the \<^verbatim>\<open>data-pad\<close> attribute
  of the pad under the pointer, or an entry of the key table.
\<close>

datatype pad = Green | Red | Yellow | Blue

text \<open>
  A pending timer callback: either \<^verbatim>\<open>() => nextRound()\<close>, or the continuation of
  \<^verbatim>\<open>playSequence\<close> suspended at the \<^verbatim>\<open>await\<close> of loop index \<open>i\<close>, which remembers the
  array \<^verbatim>\<open>seq\<close> (a reference) and the constant \<^verbatim>\<open>baseDelay\<close>.
\<close>

datatype task = NextRound | PlayStep nat int nat

record game =
  heap :: "nat \<Rightarrow> pad list"
  nextRef :: nat
  sequenceRef :: nat
  playerIndex :: nat
  level :: int
  isPlayingSequence :: bool
  highScore :: int
  lastTap :: int
  storage :: "int option"
  overlay :: "int option"
  timers :: "(int \<times> task) list"

text \<open>The contents of the array the variable \<^verbatim>\<open>sequence\<close> refers to.\<close>

definition sequence :: "game \<Rightarrow> pad list" where
  "sequence g = heap g (sequenceRef g)"

text \<open>\<^verbatim>\<open>sequence = []\<close>: a new, empty array; the old one stays in the store.\<close>

definition newSequence :: "game \<Rightarrow> game" where
  "newSequence g =
     g\<lparr>heap := (heap g)(nextRef g := []), sequenceRef := nextRef g, nextRef := Suc (nextRef g)\<rparr>"

text \<open>\<^verbatim>\<open>sequence.push(next)\<close>.\<close>

definition push :: "pad \<Rightarrow> game \<Rightarrow> game" where
  "push next g = g\<lparr>heap := (heap g)(sequenceRef g := heap g (sequenceRef g) @ [next])\<rparr>"

definition setTimeout :: "int \<Rightarrow> int \<Rightarrow> task \<Rightarrow> game \<Rightarrow> game" where
  "setTimeout now delay t g = g\<lparr>timers := timers g @ [(now + delay, t)]\<rparr>"

text \<open>
  \<^verbatim>\<open>Number(localStorage.getItem("simon_highscore") || 0)\<close>: an absent key reads as 0, and
  an integer below \<open>2 ^ 53\<close> as itself.
\<close>

definition loadHighScore :: "53 word option \<Rightarrow> int" where
  "loadHighScore st = (case st of None \<Rightarrow> 0 | Some v \<Rightarrow> uint v)"

definition saveHighScore :: "int \<Rightarrow> game \<Rightarrow> game" where
  "saveHighScore v g =
     (let h = max (highScore g) v in g\<lparr>highScore := h, storage := Some h\<rparr>)"

definition showGameOverOverlay :: "int \<Rightarrow> game \<Rightarrow> game" where
  "showGameOverOverlay score g = g\<lparr>overlay := Some score\<rparr>"

definition hideGameOverOverlay :: "game \<Rightarrow> game" where
  "hideGameOverOverlay g = g\<lparr>overlay := None\<rparr>"

subsection \<open>Presentation\<close>

text \<open>
  \<^verbatim>\<open>const baseDelay = Math.max(500 - seq.length * 8, 160)\<close>, and the delay awaited at
  loop index \<open>i\<close>, \<^verbatim>\<open>Math.max(baseDelay - i * 8, 140)\<close>.
\<close>

definition baseDelay :: "nat \<Rightarrow> int" where
  "baseDelay n = max (500 - int n * 8) 160"

definition stepDelay :: "int \<Rightarrow> nat \<Rightarrow> int" where
  "stepDelay base i = max (base - int i * 8) 140"

text \<open>
  One entry into the \<^verbatim>\<open>for\<close> loop of \<^verbatim>\<open>playSequence\<close> at index \<open>i\<close>: the test
  \<^verbatim>\<open>i < seq.length\<close> reads the array as it is now; either the next \<^verbatim>\<open>await\<close> is
  scheduled, or the loop is left and \<^verbatim>\<open>isPlayingSequence = false\<close> runs.
\<close>

definition playLoop :: "int \<Rightarrow> nat \<Rightarrow> int \<Rightarrow> nat \<Rightarrow> game \<Rightarrow> game" where
  "playLoop now ref base i g =
     (if i < length (heap g ref)
      then setTimeout now (stepDelay base i) (PlayStep ref base i) g
      else g\<lparr>isPlayingSequence := False\<rparr>)"

definition playSequence :: "int \<Rightarrow> nat \<Rightarrow> game \<Rightarrow> game" where
  "playSequence now ref g =
     playLoop now ref (baseDelay (length (heap g ref))) 0 (g\<lparr>isPlayingSequence := True\<rparr>)"

subsection \<open>Rounds\<close>

definition nextRound :: "int \<Rightarrow> pad \<Rightarrow> game \<Rightarrow> game" where
  "nextRound now next g =
     (let g1 = push next g;
          g2 = g1\<lparr>level := int (length (sequence g1))\<rparr>;
          g3 = saveHighScore (level g2 - 1) g2
      in playSequence now (sequenceRef g3) g3)"

definition startGame :: "int \<Rightarrow> game \<Rightarrow> game" where
  "startGame now g =
     setTimeout now 350 NextRound ((newSequence g)\<lparr>playerIndex := 0, level := 0\<rparr>)"

definition gameOver :: "game \<Rightarrow> game" where
  "gameOver g =
     (let g1 = saveHighScore (level g) g;
          g2 = showGameOverOverlay (level g1) g1
      in (newSequence g2)\<lparr>playerIndex := 0, level := 0, isPlayingSequence := False\<rparr>)"

text \<open>
  \<^verbatim>\<open>sequence[playerIndex]\<close> is \<^verbatim>\<open>undefined\<close> beyond the end of the array, and no pad
  is strictly equal to it: the comparison is then false.
\<close>

definition handlePlayerPress :: "int \<Rightarrow> pad \<Rightarrow> game \<Rightarrow> game" where
  "handlePlayerPress now color g =
     (if now - lastTap g < 100 then g
      else let g1 = g\<lparr>lastTap := now\<rparr> in
        if isPlayingSequence g1 then g1
        else if length (sequence g1) = 0 then g1
        else if playerIndex g1 < length (sequence g1) \<and> color = sequence g1 ! playerIndex g1
        then let g2 = g1\<lparr>playerIndex := playerIndex g1 + 1\<rparr> in
          if playerIndex g2 = length (sequence g2)
          then setTimeout now 450 NextRound (g2\<lparr>playerIndex := 0\<rparr>)
          else g2
        else gameOver g1)"

subsection \<open>Event bindings\<close>

text \<open>\<^verbatim>\<open>String.prototype.toLowerCase\<close> on the ASCII letters, which is all the key table needs.\<close>

definition lowerChar :: "char \<Rightarrow> char" where
  "lowerChar c =
     (case map_of (zip ''ABCDEFGHIJKLMNOPQRSTUVWXYZ'' ''abcdefghijklmnopqrstuvwxyz'') c of
        Some d \<Rightarrow> d
      | None \<Rightarrow> c)"

definition toLowerCase :: "string \<Rightarrow> string" where
  "toLowerCase s = map lowerChar s"

text \<open>
  The table \<^verbatim>\<open>keyMap\<close>, looked up with \<^verbatim>\<open>e.key\<close> in lower case. No key of a keyboard
  has a name that the table inherits from \<^verbatim>\<open>Object.prototype\<close>, so that a name off the
  table finds nothing.
\<close>

definition keyMap :: "string \<Rightarrow> pad option" where
  "keyMap k =
     (if k = ''a'' then Some Green
      else if k = ''s'' then Some Red
      else if k = ''d'' then Some Yellow
      else if k = ''f'' then Some Blue
      else None)"

text \<open>The \<^verbatim>\<open>keydown\<close> listener of \<^verbatim>\<open>window\<close>; \<open>key\<close> is \<^verbatim>\<open>e.key\<close>.\<close>

definition windowKeydown :: "int \<Rightarrow> string \<Rightarrow> game \<Rightarrow> game" where
  "windowKeydown now key g =
     (let g1 = (case keyMap (toLowerCase key) of
                  Some color \<Rightarrow> handlePlayerPress now color g
                | None \<Rightarrow> g)
      in if (key = '' '' \<or> key = ''Enter'') \<and> level g1 = 0 then startGame now g1 else g1)"

text \<open>
  The \<^verbatim>\<open>keydown\<close> listener of a pad. It does not stop the propagation of the event, so
  the listener of \<^verbatim>\<open>window\<close> runs after it.
\<close>

definition padKeydown :: "int \<Rightarrow> pad \<Rightarrow> string \<Rightarrow> game \<Rightarrow> game" where
  "padKeydown now p key g =
     windowKeydown now key
       (if key = ''Enter'' \<or> key = '' '' then handlePlayerPress now p g else g)"

text \<open>The click listeners of the start button and of the retry button.\<close>

definition startBtnClick :: "int \<Rightarrow> game \<Rightarrow> game" where
  "startBtnClick now g = startGame now g"

definition retryBtnClick :: "int \<Rightarrow> game \<Rightarrow> game" where
  "retryBtnClick now g = startGame now (hideGameOverOverlay g)"

text \<open>
  The pending timer at position \<open>k\<close> fires at time \<open>now\<close>, not before it is due. A
  \<open>PlayStep\<close> resumes \<^verbatim>\<open>playSequence\<close> after its \<^verbatim>\<open>await\<close>: \<^verbatim>\<open>i++\<close>, then the loop test.
\<close>

definition fire :: "int \<Rightarrow> nat \<Rightarrow> pad \<Rightarrow> game \<Rightarrow> game option" where
  "fire now k next g =
     (if k < length (timers g) then
        (case timers g ! k of (due, t) \<Rightarrow>
           if now < due then None
           else let g1 = g\<lparr>timers := take k (timers g) @ drop (Suc k) (timers g)\<rparr> in
             Some (case t of
                     NextRound \<Rightarrow> nextRound now next g1
                   | PlayStep ref base i \<Rightarrow> playLoop now ref base (Suc i) g1))
      else None)"

datatype event =
    PointerDown pad
  | PadKey pad string
  | WindowKey string
  | StartClick
  | RetryClick
  | CloseGameOver
  | Timer nat pad

definition step :: "int \<Rightarrow> event \<Rightarrow> game \<Rightarrow> game option" where
  "step now ev g =
     (case ev of
        PointerDown p \<Rightarrow> Some (handlePlayerPress now p g)
      | PadKey p key \<Rightarrow> Some (padKeydown now p key g)
      | WindowKey key \<Rightarrow> Some (windowKeydown now key g)
      | StartClick \<Rightarrow> Some (startBtnClick now g)
      | RetryClick \<Rightarrow> Some (retryBtnClick now g)
      | CloseGameOver \<Rightarrow> Some (hideGameOverOverlay g)
      | Timer k next \<Rightarrow> fire now k next g)"

fun run :: "(int \<times> event) list \<Rightarrow> game \<Rightarrow> game option" where
  "run [] g = Some g"
| "run ((now, ev) # evs) g = (case step now ev g of None \<Rightarrow> None | Some g' \<Rightarrow> run evs g')"

text \<open>The state when the script has been loaded, given what \<^verbatim>\<open>localStorage\<close> holds.\<close>

definition init :: "53 word option \<Rightarrow> game" where
  "init st =
     \<lparr>heap = (\<lambda>_. []), nextRef = 1, sequenceRef = 0, playerIndex = 0, level = 0,
      isPlayingSequence = False, highScore = loadHighScore st, lastTap = 0,
      storage = map_option uint st, overlay = None, timers = []\<rparr>"

subsection \<open>The states of the round controller\<close>



text \<open>
  The player is awaited when \<open>isPlayingSequence\<close> is not set and the sequence has an
  element at \<open>playerIndex\<close>.
\<close>

definition awaitingInput :: "game \<Rightarrow> bool" where
  "awaitingInput g = (\<not> isPlayingSequence g \<and> playerIndex g < length (sequence g))"

text \<open>The state in which the player is awaited at the start of a non-empty sequence.\<close>

definition ready :: "game \<Rightarrow> bool" where
  "ready g = (\<not> isPlayingSequence g \<and> playerIndex g = 0 \<and> timers g = [] \<and> sequence g \<noteq> [])"

text \<open>What an event can do to the sequence: nothing, empty it, or append one colour.\<close>

definition seqStep :: "game \<Rightarrow> game \<Rightarrow> bool" where
  "seqStep g g' =
     (sequence g' = sequence g \<or> sequence g' = []
      \<or> sequence g' = sequence g @ [last (sequence g')])"




section \<open>The static file server\<close>

text \<open>
  The request handler of the server script. What it calls in Node.js is not code of the
  repository and is a parameter of the model: \<^verbatim>\<open>path.join(__dirname, p)\<close>,
  \<^verbatim>\<open>path.extname\<close>, and the outcome of \<^verbatim>\<open>fs.readFile\<close>, which is either an error with
  its \<^verbatim>\<open>code\<close> and its rendering as a string, or the contents of the file.
\<close>

record fs_error =
  errCode :: string
  errText :: string

record node_env =
  pathJoin :: "string \<Rightarrow> string"
  pathExtname :: "string \<Rightarrow> string"
  fsReadFile :: "string \<Rightarrow> fs_error + string"

record response =
  status :: nat
  contentType :: "string option"
  body :: string

text \<open>The table \<^verbatim>\<open>mimeTypes\<close>, and \<^verbatim>\<open>mimeTypes[extname] || 'text/plain'\<close>.\<close>

definition mimeTypes :: "string \<Rightarrow> string option" where
  "mimeTypes ext =
     (if ext = ''.html'' then Some ''text/html''
      else if ext = ''.js'' then Some ''text/javascript''
      else if ext = ''.css'' then Some ''text/css''
      else None)"

definition contentTypeOf :: "string \<Rightarrow> string" where
  "contentTypeOf extname = (case mimeTypes extname of Some t \<Rightarrow> t | None \<Rightarrow> ''text/plain'')"

text \<open>\<^verbatim>\<open>path.join(__dirname, req.url === '/' ? '/game.html' : req.url)\<close>.\<close>

definition filePathOf :: "node_env \<Rightarrow> string \<Rightarrow> string" where
  "filePathOf env url = pathJoin env (if url = ''/'' then ''/game.html'' else url)"

definition handleRequest :: "node_env \<Rightarrow> string \<Rightarrow> response" where
  "handleRequest env url =
     (let filePath = filePathOf env url;
          extname = toLowerCase (pathExtname env filePath);
          ctype = contentTypeOf extname
      in case fsReadFile env filePath of
           Inl err \<Rightarrow>
             if errCode err = ''ENOENT''
             then \<lparr>status = 404, contentType = Some ''text/html'',
                   body = ''<h1>404 - File Not Found</h1>''\<rparr>
             else \<lparr>status = 500, contentType = None, body = ''Server Error: '' @ errText err\<rparr>
         | Inr data \<Rightarrow> \<lparr>status = 200, contentType = Some ctype, body = data\<rparr>)"

section \<open>A player and a browser\<close>

text \<open>
  A player who makes no mistake, and a browser that fires every timer as soon as it is due.
  The pairs below are the clock and the state. \<open>simPress\<close> presses a pad at the first
  moment that is neither before the clock nor inside the debounce window; \<open>simTimer\<close>
  fires the first pending timer, at its due time or at once if that has passed.
\<close>

definition simPress :: "pad \<Rightarrow> int \<times> game \<Rightarrow> int \<times> game" where
  "simPress c tg =
     (let now = max (fst tg) (lastTap (snd tg) + 100)
      in (now, handlePlayerPress now c (snd tg)))"

definition simTimer :: "pad \<Rightarrow> int \<times> game \<Rightarrow> (int \<times> game) option" where
  "simTimer c tg =
     (case timers (snd tg) of
        [] \<Rightarrow> None
      | (due, task) # _ \<Rightarrow>
          (let now = max (fst tg) due
           in case fire now 0 c (snd tg) of None \<Rightarrow> None | Some g' \<Rightarrow> Some (now, g')))"

text \<open>The next \<open>n\<close> timers, one after the other (steps of a presentation draw no colour).\<close>

fun simTimers :: "nat \<Rightarrow> int \<times> game \<Rightarrow> (int \<times> game) option" where
  "simTimers 0 tg = Some tg"
| "simTimers (Suc n) tg =
     (case simTimer Green tg of None \<Rightarrow> None | Some tg' \<Rightarrow> simTimers n tg')"

text \<open>
  The round advance that draws the colour \<open>c\<close>, followed by the whole presentation of the
  new sequence: one timer for each of its elements.
\<close>

definition simAdvance :: "pad \<Rightarrow> int \<times> game \<Rightarrow> (int \<times> game) option" where
  "simAdvance c tg =
     (case simTimer c tg of
        None \<Rightarrow> None
      | Some tg' \<Rightarrow> simTimers (length (sequence (snd tg'))) tg')"

text \<open>The player repeats the sequence, from its first colour to its last.\<close>

definition simRepeat :: "int \<times> game \<Rightarrow> int \<times> game" where
  "simRepeat tg = fold simPress (sequence (snd tg)) tg"

text \<open>One completed round for each colour of the list, which the round advance then draws.\<close>

fun simRounds :: "pad list \<Rightarrow> int \<times> game \<Rightarrow> (int \<times> game) option" where
  "simRounds [] tg = Some tg"
| "simRounds (c # cs) tg =
     (case simAdvance c (simRepeat tg) of None \<Rightarrow> None | Some tg' \<Rightarrow> simRounds cs tg')"

text \<open>
  A game from its start: in the state \<open>g\<close> a click on the start button at \<open>t\<close>, the first
  colour \<open>c\<close> and its presentation, then \<open>length cs\<close> completed rounds, each with its
  round advance.
\<close>

definition playRounds :: "int \<Rightarrow> game \<Rightarrow> pad \<Rightarrow> pad list \<Rightarrow> (int \<times> game) option" where
  "playRounds t g c cs =
     (case simAdvance c (t, startBtnClick t g) of
        None \<Rightarrow> None
      | Some tg \<Rightarrow> simRounds cs tg)"

section \<open>Example sessions\<close>


definition presenting_level_1 :: game where
  "presenting_level_1 =
     \<lparr>heap = (\<lambda>_. [])(Suc 0 := [Green]), nextRef = 2, sequenceRef = 1,
      playerIndex = 0, level = 1, isPlayingSequence = True, highScore = 0, lastTap = 0,
      storage = Some 0, overlay = None, timers = [(1842, PlayStep 1 492 0)]\<rparr>"

text \<open>
  The same, with a pad pressed at 1800, while the presentation is running, and the
  presentation over at 1842: the player is awaited.
\<close>

definition ignored_press_round_1 :: "(int \<times> event) list" where
  "ignored_press_round_1 =
     [(1000, StartClick), (1350, Timer 0 Green), (1800, PointerDown Green),
      (1842, Timer 0 Green)]"

definition awaiting_after_ignored :: game where
  "awaiting_after_ignored =
     \<lparr>heap = (\<lambda>_. [])(Suc 0 := [Green]), nextRef = 2, sequenceRef = 1,
      playerIndex = 0, level = 1, isPlayingSequence = False, highScore = 0, lastTap = 1800,
      storage = Some 0, overlay = None, timers = []\<rparr>"

text \<open>
  A game played up to the second round, the first colour of which has been repeated.
\<close>

definition play_to_level_2 :: "(int \<times> event) list" where
  "play_to_level_2 =
     [(1000, StartClick), (1350, Timer 0 Green), (1842, Timer 0 Green),
      (2000, PointerDown Green),
      (2450, Timer 0 Red), (2934, Timer 0 Green), (3410, Timer 0 Green),
      (3600, PointerDown Green)]"

definition awaiting_level_2 :: game where
  "awaiting_level_2 =
     \<lparr>heap = (\<lambda>_. [])(Suc 0 := [Green, Red]), nextRef = 2, sequenceRef = 1,
      playerIndex = 1, level = 2, isPlayingSequence = False, highScore = 1, lastTap = 3600,
      storage = Some 1, overlay = None, timers = []\<rparr>"



text \<open>
  A first round completed (which schedules the round advance for 2450) and then a wrong
  press before that timer fires: the game is over with the timer still pending.
\<close>

definition stale_prefix :: "(int \<times> event) list" where
  "stale_prefix =
     [(1000, StartClick), (1350, Timer 0 Green), (1842, Timer 0 Green),
      (2000, PointerDown Green), (2150, PointerDown Red)]"

text \<open>The same, followed by a click on the retry button at 2300.\<close>

definition retried_with_stale_timer :: game where
  "retried_with_stale_timer =
     \<lparr>heap = (\<lambda>_. [])(Suc 0 := [Green], Suc (Suc 0) := [], Suc (Suc (Suc 0)) := []),
      nextRef = 4, sequenceRef = 3,
      playerIndex = 0, level = 0, isPlayingSequence = False, highScore = 1, lastTap = 2150,
      storage = Some 1, overlay = None, timers = [(2450, NextRound), (2650, NextRound)]\<rparr>"

text \<open>
  A first round completed twice: green is pressed at 2000 and again at 2100, before the
  round advance of the first press, due at 2450, has fired.
\<close>

definition double_completion :: "(int \<times> event) list" where
  "double_completion =
     [(1000, StartClick), (1350, Timer 0 Green), (1842, Timer 0 Green),
      (2000, PointerDown Green), (2100, PointerDown Green)]"


text \<open>
  A server directory that holds \<^verbatim>\<open>game.html\<close>, \<^verbatim>\<open>GAME.JS\<close> and the directory
  \<^verbatim>\<open>sounds\<close>, with the extensions of the paths used below.
\<close>

definition example_env :: node_env where
  "example_env =
     \<lparr>pathJoin = (\<lambda>p. ''/srv/simon'' @ p),
      pathExtname = (\<lambda>p. if p = ''/srv/simon/game.html'' then ''.html''
                          else if p = ''/srv/simon/missing.css'' then ''.css''
                          else if p = ''/srv/simon/GAME.JS'' then ''.JS''
                          else []),
      fsReadFile = (\<lambda>p. if p = ''/srv/simon/game.html'' then Inr ''<!doctype html>''
                         else if p = ''/srv/simon/GAME.JS'' then Inr ''(() => {})();''
                         else if p = ''/srv/simon/sounds'' then
                           Inl \<lparr>errCode = ''EISDIR'',
                                errText = ''Error: EISDIR: illegal operation on a directory, read''\<rparr>
                         else Inl \<lparr>errCode = ''ENOENT'',
                                   errText = ''Error: ENOENT: no such file or directory''\<rparr>)\<rparr>"

section \<open>Basic facts\<close>

lemmas game_defs = init_def step_def fire_def nextRound_def startBtnClick_def retryBtnClick_def
  startGame_def handlePlayerPress_def gameOver_def playSequence_def playLoop_def setTimeout_def
  saveHighScore_def showGameOverOverlay_def hideGameOverOverlay_def newSequence_def push_def
  sequence_def baseDelay_def stepDelay_def loadHighScore_def Let_def

lemma sequence_update [simp]:
  "sequence (g\<lparr>lastTap := t\<rparr>) = sequence g"
  "sequence (g\<lparr>playerIndex := i\<rparr>) = sequence g"
  "sequence (g\<lparr>level := l\<rparr>) = sequence g"
  "sequence (g\<lparr>isPlayingSequence := b\<rparr>) = sequence g"
  "sequence (g\<lparr>highScore := h\<rparr>) = sequence g"
  "sequence (g\<lparr>storage := st\<rparr>) = sequence g"
  "sequence (g\<lparr>overlay := ov\<rparr>) = sequence g"
  "sequence (g\<lparr>timers := ts\<rparr>) = sequence g"
  by (simp_all add: sequence_def)

lemma gameOver_fields:
  "sequence (gameOver g) = []" "playerIndex (gameOver g) = 0" "level (gameOver g) = 0"
  "\<not> isPlayingSequence (gameOver g)" "overlay (gameOver g) = Some (level g)"
  "highScore (gameOver g) = max (highScore g) (level g)"
  "storage (gameOver g) = Some (max (highScore g) (level g))"
  "timers (gameOver g) = timers g"
  by (simp_all add: gameOver_def Let_def newSequence_def showGameOverOverlay_def
      saveHighScore_def sequence_def)

lemma nextRound_fields:
  "sequence (nextRound now next g) = sequence g @ [next]"
  "level (nextRound now next g) = int (length (sequence g)) + 1"
  "highScore (nextRound now next g) = max (highScore g) (int (length (sequence g)))"
  "storage (nextRound now next g) = Some (max (highScore g) (int (length (sequence g))))"
  "playerIndex (nextRound now next g) = playerIndex g"
  "lastTap (nextRound now next g) = lastTap g"
  "overlay (nextRound now next g) = overlay g"
  by (simp_all add: nextRound_def Let_def playSequence_def playLoop_def setTimeout_def
      saveHighScore_def push_def sequence_def)

lemma playLoop_fields:
  "sequence (playLoop now ref base i g) = sequence g"
  "level (playLoop now ref base i g) = level g"
  "playerIndex (playLoop now ref base i g) = playerIndex g"
  "highScore (playLoop now ref base i g) = highScore g"
  "storage (playLoop now ref base i g) = storage g"
  "lastTap (playLoop now ref base i g) = lastTap g"
  "overlay (playLoop now ref base i g) = overlay g"
  by (simp_all add: playLoop_def setTimeout_def sequence_def)

lemma startGame_fields:
  "sequence (startGame now g) = []"
  "level (startGame now g) = 0"
  "playerIndex (startGame now g) = 0"
  "highScore (startGame now g) = highScore g"
  "storage (startGame now g) = storage g"
  "lastTap (startGame now g) = lastTap g"
  "overlay (startGame now g) = overlay g"
  "isPlayingSequence (startGame now g) = isPlayingSequence g"
  "timers (startGame now g) = timers g @ [(now + 350, NextRound)]"
  by (simp_all add: startGame_def setTimeout_def newSequence_def sequence_def)

lemma retry_fields:
  "sequence (retryBtnClick now g) = []"
  "level (retryBtnClick now g) = 0"
  "playerIndex (retryBtnClick now g) = 0"
  "timers (retryBtnClick now g) = timers g @ [(now + 350, NextRound)]"
  by (simp_all add: retryBtnClick_def startGame_fields hideGameOverOverlay_def)

lemma fire_PlayStep:
  assumes "k < length (timers g)" and "timers g ! k = (due, PlayStep ref base i)" and "due \<le> t"
  shows "fire t k next g =
     Some (playLoop t ref base (Suc i) (g\<lparr>timers := take k (timers g) @ drop (Suc k) (timers g)\<rparr>))"
  using assms by (simp add: fire_def)

lemma fire_NextRound:
  assumes "k < length (timers g)" and "timers g ! k = (due, NextRound)" and "due \<le> t"
  shows "fire t k next g =
     Some (nextRound t next (g\<lparr>timers := take k (timers g) @ drop (Suc k) (timers g)\<rparr>))"
  using assms by (simp add: fire_def)

lemma toLowerCase_space: "toLowerCase '' '' = '' ''"
  by (simp add: toLowerCase_def lowerChar_def)

lemma toLowerCase_Enter: "toLowerCase ''Enter'' = ''enter''"
  by (simp add: toLowerCase_def lowerChar_def)

lemma keyMap_not_start:
  "keyMap (toLowerCase key) = Some c \<Longrightarrow> key \<noteq> '' '' \<and> key \<noteq> ''Enter''"
  by (auto simp: keyMap_def toLowerCase_space toLowerCase_Enter split: if_splits)

lemma windowKeydown_pad:
  "keyMap (toLowerCase key) = Some c \<Longrightarrow> windowKeydown now key g = handlePlayerPress now c g"
  using keyMap_not_start [of key c] by (simp add: windowKeydown_def)


lemma run_ignored_press_round_1:
  "run ignored_press_round_1 (init None) = Some awaiting_after_ignored"
  by (simp add: ignored_press_round_1_def awaiting_after_ignored_def game_defs)

lemma run_play_to_level_2: "run play_to_level_2 (init None) = Some awaiting_level_2"
  by (simp add: play_to_level_2_def awaiting_level_2_def game_defs)


lemma run_retried_with_stale_timer:
  "run (stale_prefix @ [(2300, RetryClick)]) (init None) = Some retried_with_stale_timer"
  by (simp add: stale_prefix_def retried_with_stale_timer_def game_defs)

section \<open>Pad presses\<close>

lemma press_dropped: "now - lastTap g < 100 \<Longrightarrow> handlePlayerPress now c g = g"
  by (simp add: handlePlayerPress_def)

lemma lastTap_gameOver: "lastTap (gameOver g) = lastTap g"
  by (simp add: gameOver_def Let_def newSequence_def showGameOverOverlay_def saveHighScore_def)

lemma press_lastTap: "100 \<le> now - lastTap g \<Longrightarrow> lastTap (handlePlayerPress now c g) = now"
  by (simp add: handlePlayerPress_def Let_def setTimeout_def lastTap_gameOver)


lemma press_ignored:
  "isPlayingSequence g \<or> sequence g = [] \<Longrightarrow> 100 \<le> now - lastTap g \<Longrightarrow>
   handlePlayerPress now c g = g\<lparr>lastTap := now\<rparr>"
  by (auto simp: handlePlayerPress_def Let_def)

lemma press_match:
  assumes "awaitingInput g" and "c = sequence g ! playerIndex g" and "100 \<le> now - lastTap g"
  shows "handlePlayerPress now c g =
     (if Suc (playerIndex g) = length (sequence g)
      then setTimeout now 450 NextRound (g\<lparr>lastTap := now, playerIndex := 0\<rparr>)
      else g\<lparr>lastTap := now, playerIndex := Suc (playerIndex g)\<rparr>)"
  using assms by (auto simp: handlePlayerPress_def awaitingInput_def Let_def)

lemma press_mismatch:
  assumes "awaitingInput g" and "c \<noteq> sequence g ! playerIndex g" and "100 \<le> now - lastTap g"
  shows "handlePlayerPress now c g = gameOver (g\<lparr>lastTap := now\<rparr>)"
  using assms by (auto simp: handlePlayerPress_def awaitingInput_def Let_def)

text \<open>
  C1. In a state that awaits input (the presentation is not running and \<open>playerIndex\<close> is a
  position of the sequence, whichever one), a pad press that passes the debounce and whose
  colour differs from \<open>sequence[playerIndex]\<close> runs \<open>gameOver\<close> at once: the overlay shows
  the level reached, the high score is the maximum of the old one and that level, and the
  round state is reset: the sequence is empty, \<open>playerIndex\<close> and \<open>level\<close> are 0.
\<close>

theorem mismatch_is_game_over:
  assumes "awaitingInput g" and "c \<noteq> sequence g ! playerIndex g" and "100 \<le> now - lastTap g"
  shows "handlePlayerPress now c g = gameOver (g\<lparr>lastTap := now\<rparr>)
       \<and> overlay (handlePlayerPress now c g) = Some (level g)
       \<and> highScore (handlePlayerPress now c g) = max (highScore g) (level g)
       \<and> sequence (handlePlayerPress now c g) = []
       \<and> playerIndex (handlePlayerPress now c g) = 0
       \<and> level (handlePlayerPress now c g) = 0
       \<and> \<not> isPlayingSequence (handlePlayerPress now c g)"
proof -
  have "handlePlayerPress now c g = gameOver (g\<lparr>lastTap := now\<rparr>)"
    using assms by (rule press_mismatch)
  then show ?thesis by (simp add: gameOver_fields)
qed

theorem mismatch_is_game_over_witness:
  "awaitingInput awaiting_level_2
   \<and> Green \<noteq> sequence awaiting_level_2 ! playerIndex awaiting_level_2
   \<and> 100 \<le> 3800 - lastTap awaiting_level_2
   \<and> overlay (handlePlayerPress 3800 Green awaiting_level_2) = Some 2
   \<and> sequence (handlePlayerPress 3800 Green awaiting_level_2) = []
   \<and> playerIndex (handlePlayerPress 3800 Green awaiting_level_2) = 0
   \<and> level (handlePlayerPress 3800 Green awaiting_level_2) = 0"
proof -
  have a: "awaitingInput awaiting_level_2"
    by (simp add: awaiting_level_2_def awaitingInput_def sequence_def)
  have b: "Green \<noteq> sequence awaiting_level_2 ! playerIndex awaiting_level_2"
    by (simp add: awaiting_level_2_def sequence_def)
  have c: "100 \<le> 3800 - lastTap awaiting_level_2"
    by (simp add: awaiting_level_2_def)
  have d: "level awaiting_level_2 = 2"
    by (simp add: awaiting_level_2_def)
  note r = mismatch_is_game_over [OF a b c, unfolded d]
  show ?thesis
    using a b c r by blast
qed

text \<open>
  C10. A pad press that is ignored because the sequence is being presented, or because the
  sequence is empty, and that arrives at least 100 ms after the recorded press, changes
  nothing but the debounce timestamp, which becomes the time of that press. So in any later
  state \<open>g'\<close> that still has this timestamp, a pad press less than 100 ms after the ignored
  one is dropped, whatever its colour and whatever \<open>g'\<close> awaits.
\<close>

theorem ignored_press_sets_lastTap:
  assumes "isPlayingSequence g \<or> sequence g = []" and "100 \<le> now - lastTap g"
  shows "handlePlayerPress now c g = g\<lparr>lastTap := now\<rparr>
       \<and> (lastTap g' = lastTap (handlePlayerPress now c g) \<longrightarrow> now' - now < 100 \<longrightarrow>
            handlePlayerPress now' c' g' = g')"
proof -
  have "handlePlayerPress now c g = g\<lparr>lastTap := now\<rparr>"
    using assms by (simp add: press_ignored)
  then show ?thesis
    by (simp add: press_dropped)
qed

theorem ignored_press_sets_lastTap_witness:
  "(isPlayingSequence presenting_level_1 \<or> sequence presenting_level_1 = [])
   \<and> 100 \<le> 1800 - lastTap presenting_level_1
   \<and> handlePlayerPress 1800 Green presenting_level_1 = presenting_level_1\<lparr>lastTap := 1800\<rparr>
   \<and> run ignored_press_round_1 (init None) = Some awaiting_after_ignored
   \<and> awaitingInput awaiting_after_ignored
   \<and> sequence awaiting_after_ignored ! playerIndex awaiting_after_ignored = Green
   \<and> lastTap awaiting_after_ignored = lastTap (handlePlayerPress 1800 Green presenting_level_1)
   \<and> 1850 - 1800 < (100::int)
   \<and> handlePlayerPress 1850 Green awaiting_after_ignored = awaiting_after_ignored"
proof -
  have a: "isPlayingSequence presenting_level_1 \<or> sequence presenting_level_1 = []"
    by (simp add: presenting_level_1_def)
  have b: "100 \<le> 1800 - lastTap presenting_level_1"
    by (simp add: presenting_level_1_def)
  note r = ignored_press_sets_lastTap [OF a b, of Green awaiting_after_ignored 1850 Green]
  have c: "lastTap awaiting_after_ignored = lastTap (handlePlayerPress 1800 Green presenting_level_1)"
    using r by (simp add: awaiting_after_ignored_def)
  have d: "awaitingInput awaiting_after_ignored"
    by (simp add: awaiting_after_ignored_def awaitingInput_def sequence_def)
  have e: "sequence awaiting_after_ignored ! playerIndex awaiting_after_ignored = Green"
    by (simp add: awaiting_after_ignored_def sequence_def)
  show ?thesis
    using a b c d e r run_ignored_press_round_1 by simp
qed

text \<open>
  C6. A pad press is dropped, leaving the whole state as it was, exactly when it arrives
  less than 100 ms after \<open>lastTap\<close>, the time of the last press that was not dropped. Of
  two presses less than 100 ms apart at most one changes the state. A press outside the
  window is processed as if there were no debounce: the outcome does not depend on the old
  timestamp, and a press of the expected colour advances \<open>playerIndex\<close> by exactly one
  position (back to 0, with the next round scheduled, at the end of the sequence).
\<close>

theorem debounce_window:
  "(handlePlayerPress now c g = g \<longleftrightarrow> now - lastTap g < 100)
   \<and> (tb - ta < 100 \<longrightarrow>
        handlePlayerPress ta ca g = g
        \<or> handlePlayerPress tb cb (handlePlayerPress ta ca g) = handlePlayerPress ta ca g)
   \<and> (100 \<le> now - lastTap g \<longrightarrow> 100 \<le> now - t \<longrightarrow>
        handlePlayerPress now c (g\<lparr>lastTap := t\<rparr>) = handlePlayerPress now c g)
   \<and> (100 \<le> now - lastTap g \<longrightarrow> awaitingInput g \<longrightarrow> c = sequence g ! playerIndex g \<longrightarrow>
        handlePlayerPress now c g =
          (if Suc (playerIndex g) = length (sequence g)
           then setTimeout now 450 NextRound (g\<lparr>lastTap := now, playerIndex := 0\<rparr>)
           else g\<lparr>lastTap := now, playerIndex := Suc (playerIndex g)\<rparr>))"
proof -
  have 1: "handlePlayerPress now c g = g \<longleftrightarrow> now - lastTap g < 100"
  proof
    assume eq: "handlePlayerPress now c g = g"
    show "now - lastTap g < 100"
    proof (rule ccontr)
      assume "\<not> now - lastTap g < 100"
      then have far: "100 \<le> now - lastTap g" by simp
      then have "lastTap (handlePlayerPress now c g) = now" by (rule press_lastTap)
      with eq far show False by simp
    qed
  next
    assume "now - lastTap g < 100"
    then show "handlePlayerPress now c g = g" by (rule press_dropped)
  qed
  have 2: "tb - ta < 100 \<longrightarrow>
        handlePlayerPress ta ca g = g
        \<or> handlePlayerPress tb cb (handlePlayerPress ta ca g) = handlePlayerPress ta ca g"
    by (cases "ta - lastTap g < 100") (simp_all add: press_dropped press_lastTap)
  have 3: "100 \<le> now - lastTap g \<longrightarrow> 100 \<le> now - t \<longrightarrow>
        handlePlayerPress now c (g\<lparr>lastTap := t\<rparr>) = handlePlayerPress now c g"
    by (simp add: handlePlayerPress_def)
  have 4: "100 \<le> now - lastTap g \<longrightarrow> awaitingInput g \<longrightarrow> c = sequence g ! playerIndex g \<longrightarrow>
        handlePlayerPress now c g =
          (if Suc (playerIndex g) = length (sequence g)
           then setTimeout now 450 NextRound (g\<lparr>lastTap := now, playerIndex := 0\<rparr>)
           else g\<lparr>lastTap := now, playerIndex := Suc (playerIndex g)\<rparr>)"
    using press_match [of g c now] by blast
  from 1 2 3 4 show ?thesis by blast
qed

theorem debounce_window_witness:
  "(3850::int) - 3800 < 100
   \<and> 100 \<le> 3800 - lastTap awaiting_level_2
   \<and> 100 \<le> (3800::int) - 3000
   \<and> awaitingInput awaiting_level_2
   \<and> Red = sequence awaiting_level_2 ! playerIndex awaiting_level_2
   \<and> handlePlayerPress 3800 Red awaiting_level_2 \<noteq> awaiting_level_2
   \<and> handlePlayerPress 3850 Red (handlePlayerPress 3800 Red awaiting_level_2)
       = handlePlayerPress 3800 Red awaiting_level_2
   \<and> handlePlayerPress 3800 Red (awaiting_level_2\<lparr>lastTap := 3000\<rparr>)
       = handlePlayerPress 3800 Red awaiting_level_2
   \<and> handlePlayerPress 3800 Red awaiting_level_2
       = setTimeout 3800 450 NextRound (awaiting_level_2\<lparr>lastTap := 3800, playerIndex := 0\<rparr>)"
proof -
  have a: "awaitingInput awaiting_level_2"
    by (simp add: awaiting_level_2_def awaitingInput_def sequence_def)
  have b: "Red = sequence awaiting_level_2 ! playerIndex awaiting_level_2"
    by (simp add: awaiting_level_2_def sequence_def)
  have c: "100 \<le> 3800 - lastTap awaiting_level_2"
    by (simp add: awaiting_level_2_def)
  have d: "Suc (playerIndex awaiting_level_2) = length (sequence awaiting_level_2)"
    by (simp add: awaiting_level_2_def sequence_def)
  note r = debounce_window [where now = 3800 and c = Red and g = awaiting_level_2
      and ta = 3800 and tb = 3850 and ca = Red and cb = Red and t = 3000]
  have e: "(3850::int) - 3800 < 100" and f: "100 \<le> (3800::int) - 3000"
    by simp_all
  from r have "handlePlayerPress 3800 Red awaiting_level_2 = awaiting_level_2
      \<longleftrightarrow> 3800 - lastTap awaiting_level_2 < 100"
    by blast
  with c have n: "handlePlayerPress 3800 Red awaiting_level_2 \<noteq> awaiting_level_2"
    by linarith
  from r a b c have "handlePlayerPress 3800 Red awaiting_level_2 =
      (if Suc (playerIndex awaiting_level_2) = length (sequence awaiting_level_2)
       then setTimeout 3800 450 NextRound (awaiting_level_2\<lparr>lastTap := 3800, playerIndex := 0\<rparr>)
       else awaiting_level_2\<lparr>lastTap := 3800, playerIndex := Suc (playerIndex awaiting_level_2)\<rparr>)"
    by blast
  with d have m: "handlePlayerPress 3800 Red awaiting_level_2 =
      setTimeout 3800 450 NextRound (awaiting_level_2\<lparr>lastTap := 3800, playerIndex := 0\<rparr>)"
    by (simp only: if_True simp_thms)
  show ?thesis
    using a b c e f n m r by blast
qed

section \<open>Presentation timing\<close>

lemma baseDelay_antimono: "m \<le> n \<Longrightarrow> baseDelay n \<le> baseDelay m"
  by (simp add: baseDelay_def)

lemma stepDelay_mono_base: "b \<le> b' \<Longrightarrow> stepDelay b i \<le> stepDelay b' i"
  by (simp add: stepDelay_def)

lemma stepDelay_antimono: "i \<le> j \<Longrightarrow> stepDelay b j \<le> stepDelay b i"
  by (simp add: stepDelay_def)

lemma stepDelay_floor: "140 \<le> stepDelay b i"
  by (simp add: stepDelay_def)

lemma playSequence_timers:
  "heap g ref \<noteq> [] \<Longrightarrow>
   timers (playSequence now ref g) =
     timers g @ [(now + stepDelay (baseDelay (length (heap g ref))) 0,
                  PlayStep ref (baseDelay (length (heap g ref))) 0)]"
  by (simp add: playSequence_def playLoop_def setTimeout_def)

lemma playLoop_timers:
  "i < length (heap g ref) \<Longrightarrow>
   timers (playLoop now ref base i g) = timers g @ [(now + stepDelay base i, PlayStep ref base i)]"
  by (simp add: playLoop_def setTimeout_def)

text \<open>
  C8. The delay awaited after a colour of the presentation is \<open>stepDelay (baseDelay n) i\<close>
  for a sequence of length \<open>n\<close> and step \<open>i\<close>: \<open>playSequence\<close> and every later loop entry
  schedule their timer with exactly this delay. It does not increase when the sequence gets
  longer, it does not increase from a step to a later one, and it is never below 140 ms.
\<close>

theorem presentation_delay_monotone:
  "(m \<le> n \<longrightarrow> stepDelay (baseDelay n) i \<le> stepDelay (baseDelay m) i)
   \<and> (i \<le> j \<longrightarrow> stepDelay (baseDelay n) j \<le> stepDelay (baseDelay n) i)
   \<and> 140 \<le> stepDelay (baseDelay n) i
   \<and> (heap g ref \<noteq> [] \<longrightarrow>
        timers (playSequence now ref g) =
          timers g @ [(now + stepDelay (baseDelay (length (heap g ref))) 0,
                       PlayStep ref (baseDelay (length (heap g ref))) 0)])
   \<and> (i < length (heap g ref) \<longrightarrow>
        timers (playLoop now ref base i g) =
          timers g @ [(now + stepDelay base i, PlayStep ref base i)])"
  using baseDelay_antimono [of m n] stepDelay_mono_base [of "baseDelay n" "baseDelay m" i]
    stepDelay_antimono [of i j "baseDelay n"] stepDelay_floor [of "baseDelay n" i]
    playSequence_timers [of g ref now] playLoop_timers [of i g ref now base]
  by blast

theorem presentation_delay_monotone_witness:
  "(10::nat) \<le> 50 \<and> (0::nat) \<le> 3
   \<and> heap presenting_level_1 (Suc 0) \<noteq> [] \<and> 0 < length (heap presenting_level_1 (Suc 0))
   \<and> stepDelay (baseDelay 50) 0 \<le> stepDelay (baseDelay 10) 0
   \<and> stepDelay (baseDelay 50) 3 \<le> stepDelay (baseDelay 50) 0
   \<and> 140 \<le> stepDelay (baseDelay 50) 0
   \<and> timers (playLoop 1350 (Suc 0) 492 0 presenting_level_1) =
       timers presenting_level_1 @ [(1350 + stepDelay 492 0, PlayStep (Suc 0) 492 0)]"
proof -
  have a: "heap presenting_level_1 (Suc 0) \<noteq> []" "0 < length (heap presenting_level_1 (Suc 0))"
    by (simp_all add: presenting_level_1_def)
  have b: "(10::nat) \<le> 50" "(0::nat) \<le> 3"
    by simp_all
  note r = presentation_delay_monotone [where m = 10 and n = 50 and i = 0 and j = 3
      and g = presenting_level_1 and ref = "Suc 0" and now = 1350 and base = 492]
  show ?thesis
    using a b r by blast
qed

section \<open>The high score\<close>























section \<open>Start, retry and pending timers\<close>

text \<open>
  C3. The start control is meant to act in the idle state only, and the key does: with
  \<open>level\<close> at 2 the \<^verbatim>\<open>Enter\<close> key leaves the state as it is. The click listener of the
  start button has no such test. In the state reached by \<open>play_to_level_2\<close>, which awaits
  the second colour of the sequence green, red, a click on the start button empties the
  sequence, sets \<open>playerIndex\<close> and \<open>level\<close> to 0 and schedules a round advance.
\<close>

theorem start_button_resets_game_in_progress:
  "run play_to_level_2 (init None) = Some awaiting_level_2
   \<and> awaitingInput awaiting_level_2
   \<and> sequence awaiting_level_2 = [Green, Red]
   \<and> level awaiting_level_2 = 2
   \<and> playerIndex awaiting_level_2 = 1
   \<and> step 4000 StartClick awaiting_level_2 = Some (startGame 4000 awaiting_level_2)
   \<and> sequence (startGame 4000 awaiting_level_2) = []
   \<and> level (startGame 4000 awaiting_level_2) = 0
   \<and> playerIndex (startGame 4000 awaiting_level_2) = 0
   \<and> timers (startGame 4000 awaiting_level_2) = [(4350, NextRound)]
   \<and> windowKeydown 4000 ''Enter'' awaiting_level_2 = awaiting_level_2"
  apply (intro conjI)
  apply (rule run_play_to_level_2)
  apply (simp_all add: awaiting_level_2_def awaitingInput_def sequence_def step_def startBtnClick_def
         startGame_fields windowKeydown_def toLowerCase_Enter keyMap_def)
  apply (simp_all add: startGame_def setTimeout_def newSequence_def)
  done

text \<open>
  C7, as stated, fails. After \<open>stale_prefix\<close> the round advance scheduled at 2000 is still
  pending. The retry at 2300 empties the sequence and schedules its own round advance for
  2650, and cancels nothing. At 2450 the old callback fires and appends red to the sequence
  of the new game; at 2650 the new one appends blue: the new game opens with two colours at
  level 2.
\<close>

theorem stale_round_advance_counterexample:
  "map_option timers (run stale_prefix (init None)) = Some [(2450, NextRound)]
   \<and> map_option overlay (run stale_prefix (init None)) = Some (Some 1)
   \<and> map_option sequence (run (stale_prefix @ [(2300, RetryClick)]) (init None)) = Some []
   \<and> map_option timers (run (stale_prefix @ [(2300, RetryClick)]) (init None))
       = Some [(2450, NextRound), (2650, NextRound)]
   \<and> map_option sequence
        (run (stale_prefix @ [(2300, RetryClick), (2450, Timer 0 Red)]) (init None))
       = Some [Red]
   \<and> map_option level
        (run (stale_prefix @ [(2300, RetryClick), (2450, Timer 0 Red)]) (init None))
       = Some 1
   \<and> map_option sequence
        (run (stale_prefix @ [(2300, RetryClick), (2450, Timer 0 Red), (2650, Timer 0 Blue)])
           (init None))
       = Some [Red, Blue]
   \<and> map_option level
        (run (stale_prefix @ [(2300, RetryClick), (2450, Timer 0 Red), (2650, Timer 0 Blue)])
           (init None))
       = Some 2"
  by (simp add: stale_prefix_def game_defs)

text \<open>
  C7, amended. Starting or retrying a game empties the sequence, sets \<open>playerIndex\<close> and
  \<open>level\<close> to 0 and adds one round advance to the pending timers, none of which it
  cancels. A pending presentation step, when it fires, changes neither the sequence nor
  \<open>playerIndex\<close> nor \<open>level\<close>. A pending round advance, when it fires, appends one colour
  to the sequence as it is then and sets \<open>level\<close> to the new length.
\<close>

theorem reset_keeps_pending_timers:
  "sequence (startGame now g) = [] \<and> playerIndex (startGame now g) = 0
   \<and> level (startGame now g) = 0
   \<and> timers (startGame now g) = timers g @ [(now + 350, NextRound)]
   \<and> sequence (retryBtnClick now g) = [] \<and> playerIndex (retryBtnClick now g) = 0
   \<and> level (retryBtnClick now g) = 0
   \<and> timers (retryBtnClick now g) = timers g @ [(now + 350, NextRound)]
   \<and> (k < length (timers g) \<longrightarrow> timers g ! k = (due, PlayStep ref base i) \<longrightarrow> due \<le> t \<longrightarrow>
        (\<exists>g'. fire t k c g = Some g' \<and> sequence g' = sequence g
              \<and> playerIndex g' = playerIndex g \<and> level g' = level g))
   \<and> (k < length (timers g) \<longrightarrow> timers g ! k = (due, NextRound) \<longrightarrow> due \<le> t \<longrightarrow>
        (\<exists>g'. fire t k c g = Some g' \<and> sequence g' = sequence g @ [c]
              \<and> playerIndex g' = playerIndex g \<and> level g' = int (length (sequence g)) + 1))"
proof -
  have "k < length (timers g) \<longrightarrow> timers g ! k = (due, PlayStep ref base i) \<longrightarrow> due \<le> t \<longrightarrow>
        (\<exists>g'. fire t k c g = Some g' \<and> sequence g' = sequence g
              \<and> playerIndex g' = playerIndex g \<and> level g' = level g)"
    by (simp add: fire_PlayStep playLoop_fields)
  moreover have "k < length (timers g) \<longrightarrow> timers g ! k = (due, NextRound) \<longrightarrow> due \<le> t \<longrightarrow>
        (\<exists>g'. fire t k c g = Some g' \<and> sequence g' = sequence g @ [c]
              \<and> playerIndex g' = playerIndex g \<and> level g' = int (length (sequence g)) + 1)"
    by (simp add: fire_NextRound nextRound_fields)
  ultimately show ?thesis
    by (simp add: startGame_fields retry_fields)
qed

theorem reset_keeps_pending_timers_witness:
  "run (stale_prefix @ [(2300, RetryClick)]) (init None) = Some retried_with_stale_timer
   \<and> 0 < length (timers retried_with_stale_timer)
   \<and> timers retried_with_stale_timer ! 0 = (2450, NextRound)
   \<and> (2450::int) \<le> 2450
   \<and> sequence retried_with_stale_timer = []
   \<and> map_option sequence (fire 2450 0 Red retried_with_stale_timer) = Some [Red]
   \<and> 0 < length (timers presenting_level_1)
   \<and> timers presenting_level_1 ! 0 = (1842, PlayStep 1 492 0)
   \<and> (1842::int) \<le> 1842
   \<and> map_option sequence (fire 1842 0 Red presenting_level_1) = Some [Green]"
proof -
  have a: "0 < length (timers retried_with_stale_timer)"
    "timers retried_with_stale_timer ! 0 = (2450, NextRound)" "(2450::int) \<le> 2450"
    "sequence retried_with_stale_timer = []"
    by (simp_all add: retried_with_stale_timer_def sequence_def)
  have b: "0 < length (timers presenting_level_1)"
    "timers presenting_level_1 ! 0 = (1842, PlayStep 1 492 0)" "(1842::int) \<le> 1842"
    "sequence presenting_level_1 = [Green]"
    by (simp_all add: presenting_level_1_def sequence_def)
  from reset_keeps_pending_timers [where g = retried_with_stale_timer and k = 0 and due = 2450
      and t = 2450 and c = Red] a
  have c: "map_option sequence (fire 2450 0 Red retried_with_stale_timer) = Some [Red]"
    by auto
  from reset_keeps_pending_timers [where g = presenting_level_1 and k = 0 and due = 1842
      and t = 1842 and ref = 1 and base = 492 and i = 0 and c = Red] b
  have d: "map_option sequence (fire 1842 0 Red presenting_level_1) = Some [Green]"
    by auto
  show ?thesis
    using a b c d run_retried_with_stale_timer by blast
qed

section \<open>Playing rounds\<close>

lemma simPress_pair:
  "simPress c (t, g) =
     (max t (lastTap g + 100), handlePlayerPress (max t (lastTap g + 100)) c g)"
  by (simp add: simPress_def Let_def)

lemma simTimer_single:
  "timers g = [(due, task)] \<Longrightarrow>
   simTimer c (t, g) = map_option (Pair (max t due)) (fire (max t due) 0 c g)"
  by (simp add: simTimer_def Let_def split: option.split)

lemma presses_complete:
  assumes "\<not> isPlayingSequence g" and "sequence g = pre @ cs" and "playerIndex g = length pre"
    and "cs \<noteq> []"
  shows "\<exists>t'. fold simPress cs (t, g) =
     (t', g\<lparr>lastTap := t', playerIndex := 0, timers := timers g @ [(t' + 450, NextRound)]\<rparr>)"
  using assms
proof (induction cs arbitrary: pre g t)
  case Nil
  then show ?case by simp
next
  case (Cons c cs)
  define now where "now = max t (lastTap g + 100)"
  have far: "100 \<le> now - lastTap g" by (simp add: now_def)
  have aw: "awaitingInput g" using Cons.prems by (simp add: awaitingInput_def)
  have ex: "c = sequence g ! playerIndex g" using Cons.prems by simp
  note m = press_match [OF aw ex far]
  show ?case
  proof (cases cs)
    case Nil
    then have "Suc (playerIndex g) = length (sequence g)" using Cons.prems by simp
    with m have "handlePlayerPress now c g =
        setTimeout now 450 NextRound (g\<lparr>lastTap := now, playerIndex := 0\<rparr>)" by simp
    then show ?thesis
      using Nil by (simp add: simPress_pair now_def [symmetric] setTimeout_def)
  next
    case (Cons c' cs')
    then have "Suc (playerIndex g) \<noteq> length (sequence g)" using Cons.prems by simp
    with m have h: "handlePlayerPress now c g = g\<lparr>lastTap := now, playerIndex := Suc (length pre)\<rparr>"
      using Cons.prems by simp
    let ?g1 = "g\<lparr>lastTap := now, playerIndex := Suc (length pre)\<rparr>"
    have "\<exists>t'. fold simPress cs (now, ?g1) =
       (t', ?g1\<lparr>lastTap := t', playerIndex := 0, timers := timers ?g1 @ [(t' + 450, NextRound)]\<rparr>)"
      using Cons.prems Cons by (intro Cons.IH [where pre = "pre @ [c]"]) simp_all
    then show ?thesis
      by (simp add: simPress_pair now_def [symmetric] h)
  qed
qed

lemma playback_finishes:
  assumes "timers g = [(due, PlayStep ref base i)]" and "n = length (heap g ref) - i"
    and "i < length (heap g ref)"
  shows "\<exists>t'. simTimers n (t, g) = Some (t', g\<lparr>timers := [], isPlayingSequence := False\<rparr>)"
  using assms
proof (induction n arbitrary: g due i t)
  case 0
  then show ?case by simp
next
  case (Suc n)
  define now where "now = max t due"
  have f: "fire now 0 Green g = Some (playLoop now ref base (Suc i) (g\<lparr>timers := []\<rparr>))"
    using Suc.prems by (simp add: fire_def now_def)
  have st: "simTimers (Suc n) (t, g) =
      simTimers n (now, playLoop now ref base (Suc i) (g\<lparr>timers := []\<rparr>))"
    using Suc.prems(1) by (simp add: simTimer_single now_def [symmetric] f)
  show ?case
  proof (cases "Suc i < length (heap g ref)")
    case True
    let ?g1 = "g\<lparr>timers := [(now + stepDelay base (Suc i), PlayStep ref base (Suc i))]\<rparr>"
    have p: "playLoop now ref base (Suc i) (g\<lparr>timers := []\<rparr>) = ?g1"
      using True by (simp add: playLoop_def setTimeout_def)
    have "\<exists>t'. simTimers n (now, ?g1) = Some (t', ?g1\<lparr>timers := [], isPlayingSequence := False\<rparr>)"
      using Suc.prems True by (intro Suc.IH [where i = "Suc i"]) auto
    then show ?thesis
      unfolding st p by simp
  next
    case False
    then have n0: "n = 0" using Suc.prems by simp
    have p: "playLoop now ref base (Suc i) (g\<lparr>timers := []\<rparr>) =
        g\<lparr>timers := [], isPlayingSequence := False\<rparr>"
      using False by (simp add: playLoop_def)
    have "simTimers (Suc n) (t, g) = Some (now, g\<lparr>timers := [], isPlayingSequence := False\<rparr>)"
      unfolding st p by (simp add: n0)
    then show ?thesis
      by blast
  qed
qed

lemma advance_appends:
  assumes "timers g = [(due, NextRound)]"
  shows "\<exists>t' g'. simAdvance c (t, g) = Some (t', g') \<and> sequence g' = sequence g @ [c]
     \<and> \<not> isPlayingSequence g' \<and> timers g' = [] \<and> playerIndex g' = playerIndex g
     \<and> level g' = int (length (sequence g)) + 1"
proof -
  define now where "now = max t due"
  define g1 where "g1 = nextRound now c (g\<lparr>timers := []\<rparr>)"
  have f: "simTimer c (t, g) = Some (now, g1)"
    using assms by (simp add: simTimer_single fire_def now_def g1_def)
  have s1: "sequence g1 = sequence g @ [c]" "playerIndex g1 = playerIndex g"
    "level g1 = int (length (sequence g)) + 1"
    by (simp_all add: g1_def nextRound_fields)
  have h1: "heap g1 (sequenceRef g1) = sequence g @ [c]"
    using s1 by (simp add: sequence_def)
  have t1: "timers g1 = [(now + stepDelay (baseDelay (Suc (length (sequence g)))) 0,
      PlayStep (sequenceRef g1) (baseDelay (Suc (length (sequence g)))) 0)]"
    by (simp add: g1_def nextRound_def Let_def playSequence_def playLoop_def setTimeout_def
        saveHighScore_def push_def sequence_def)
  have "\<exists>t'. simTimers (length (sequence g1)) (now, g1) =
      Some (t', g1\<lparr>timers := [], isPlayingSequence := False\<rparr>)"
    using t1 by (rule playback_finishes) (simp_all add: h1 s1)
  then show ?thesis
    using s1 by (auto simp: simAdvance_def f)
qed

lemma repeat_completes:
  assumes "ready g"
  shows "\<exists>t'. simRepeat (t, g) =
     (t', g\<lparr>lastTap := t', playerIndex := 0, timers := [(t' + 450, NextRound)]\<rparr>)"
  using presses_complete [of g "[]" "sequence g" t] assms by (simp add: simRepeat_def ready_def)

lemma round_keeps_ready:
  assumes "ready g"
  shows "\<exists>t' g'. simAdvance c (simRepeat (t, g)) = Some (t', g') \<and> ready g'
     \<and> sequence g' = sequence g @ [c] \<and> level g' = int (length (sequence g)) + 1"
proof -
  from repeat_completes [OF assms] obtain t1 where
    r: "simRepeat (t, g) =
      (t1, g\<lparr>lastTap := t1, playerIndex := 0, timers := [(t1 + 450, NextRound)]\<rparr>)" ..
  let ?g1 = "g\<lparr>lastTap := t1, playerIndex := 0, timers := [(t1 + 450, NextRound)]\<rparr>"
  have "timers ?g1 = [(t1 + 450, NextRound)]" by simp
  from advance_appends [OF this, of c t1] show ?thesis
    unfolding r by (auto simp: ready_def)
qed

lemma rounds_append:
  assumes "ready g"
  shows "\<exists>t' g'. simRounds cs (t, g) = Some (t', g') \<and> ready g'
     \<and> sequence g' = sequence g @ cs \<and> level g' = (if cs = [] then level g else int (length (sequence g') ))"
  using assms
proof (induction cs arbitrary: t g)
  case Nil
  then show ?case by simp
next
  case (Cons c cs)
  from round_keeps_ready [OF Cons.prems, of c t] obtain t1 g1 where
    a: "simAdvance c (simRepeat (t, g)) = Some (t1, g1)" and r: "ready g1"
    and s: "sequence g1 = sequence g @ [c]" and l: "level g1 = int (length (sequence g)) + 1"
    by blast
  from Cons.IH [OF r, of t1] obtain t2 g2 where
    b: "simRounds cs (t1, g1) = Some (t2, g2)" and r2: "ready g2"
    and s2: "sequence g2 = sequence g1 @ cs"
    and l2: "level g2 = (if cs = [] then level g1 else int (length (sequence g2)))"
    by blast
  show ?case
    using a b r2 s s2 l l2 by auto
qed

lemma start_ready:
  assumes "timers g = []"
  shows "\<exists>t' g'. simAdvance c (t, startBtnClick t g) = Some (t', g') \<and> ready g'
     \<and> sequence g' = [c] \<and> level g' = 1"
proof -
  have "timers (startBtnClick t g) = [(t + 350, NextRound)]"
    using assms by (simp add: startBtnClick_def startGame_fields)
  from advance_appends [OF this, of c t] show ?thesis
    by (auto simp: ready_def startBtnClick_def startGame_fields)
qed

lemma playRounds_ready:
  assumes "timers g = []"
  shows "\<exists>t' g'. playRounds t g c cs = Some (t', g') \<and> ready g' \<and> sequence g' = c # cs
     \<and> level g' = int (length (c # cs))"
proof -
  from start_ready [OF assms, of c t] obtain t1 g1 where
    a: "simAdvance c (t, startBtnClick t g) = Some (t1, g1)" and r: "ready g1"
    and s: "sequence g1 = [c]" and l: "level g1 = 1"
    by blast
  from rounds_append [OF r, of cs t1] obtain t2 g2 where
    b: "simRounds cs (t1, g1) = Some (t2, g2)" and r2: "ready g2"
    and s2: "sequence g2 = sequence g1 @ cs"
    and l2: "level g2 = (if cs = [] then level g1 else int (length (sequence g2)))"
    by blast
  show ?thesis
    using a b r2 s s2 l l2 by (auto simp: playRounds_def)
qed

lemma seqStep_same: "sequence g' = sequence g \<Longrightarrow> seqStep g g'"
  by (simp add: seqStep_def)

lemma seqStep_empty: "sequence g' = [] \<Longrightarrow> seqStep g g'"
  by (simp add: seqStep_def)

lemma seqStep_press: "seqStep g (handlePlayerPress now c g)"
  by (simp add: handlePlayerPress_def Let_def seqStep_def setTimeout_def gameOver_fields)

lemma seqStep_windowKeydown: "seqStep g (windowKeydown now key g)"
proof (cases "keyMap (toLowerCase key)")
  case None
  then show ?thesis
    by (simp add: windowKeydown_def seqStep_def startGame_fields)
next
  case (Some c)
  then show ?thesis
    using seqStep_press [of g now c] by (simp add: windowKeydown_pad)
qed

lemma seqStep_padKeydown: "seqStep g (padKeydown now p key g)"
proof (cases "key = ''Enter'' \<or> key = '' ''")
  case False
  then show ?thesis
    using seqStep_windowKeydown [of g now key] by (simp add: padKeydown_def)
next
  case True
  then have "keyMap (toLowerCase key) = None"
    by (auto simp: keyMap_def toLowerCase_space toLowerCase_Enter)
  with True have "padKeydown now p key g =
      (if level (handlePlayerPress now p g) = 0
       then startGame now (handlePlayerPress now p g) else handlePlayerPress now p g)"
    by (auto simp: padKeydown_def windowKeydown_def)
  then show ?thesis
    using seqStep_press [of g now p] by (simp add: seqStep_empty startGame_fields)
qed

lemma seqStep_fire: "fire now k c g = Some g' \<Longrightarrow> seqStep g g'"
  by (auto simp: fire_def Let_def seqStep_def nextRound_fields playLoop_fields
      split: if_splits prod.splits task.splits)

lemma seqStep_step: "step now ev g = Some g' \<Longrightarrow> seqStep g g'"
  by (cases ev)
     (auto simp: step_def startBtnClick_def retry_fields startGame_fields hideGameOverOverlay_def
        seqStep_press seqStep_windowKeydown seqStep_padKeydown seqStep_fire
        intro: seqStep_empty seqStep_same)

text \<open>
  C4, as stated, fails. After \<open>double_completion\<close> the first round has been completed
  twice without a mistake, and each completion has scheduled its round advance. The
  sequence has length 1 then, not 2, and length 3, at level 3, once the two round advances
  have fired.
\<close>

theorem double_completion_counterexample:
  "map_option sequence (run double_completion (init None)) = Some [Green]
   \<and> map_option playerIndex (run double_completion (init None)) = Some 0
   \<and> map_option timers (run double_completion (init None))
       = Some [(2450, NextRound), (2550, NextRound)]
   \<and> map_option sequence
        (run (double_completion @ [(2450, Timer 0 Red), (2550, Timer 0 Blue)]) (init None))
       = Some [Green, Red, Blue]
   \<and> map_option level
        (run (double_completion @ [(2450, Timer 0 Red), (2550, Timer 0 Blue)]) (init None))
       = Some 3"
  by (simp add: double_completion_def game_defs)

text \<open>
  C4, amended. A round advance appends exactly one colour, the one drawn, at the end of the
  sequence and leaves the earlier colours in place, in every state; and no event changes
  the sequence in any other way than by such an append or by emptying it. Let a game be
  started in a state with no timer pending, whatever the sequence it holds, and let
  \<open>length cs\<close> rounds be completed and advanced, whatever the colours \<open>c # cs\<close> drawn, by
  a player who repeats each sequence once, after its presentation. When the player has
  completed the next round, which is round number \<open>N = Suc (length cs)\<close>, the sequence has
  length exactly \<open>N\<close> and the round advance is the one pending timer; when it has fired,
  the \<open>N\<close> colours are in place and the length is \<open>N + 1\<close>. In particular, when the
  sequence is green alone, a press of green completes the round and the round advance gives
  a sequence of length 2 that still starts with green.
\<close>

theorem sequence_grows_by_one_per_round:
  "sequence (init st) = []
   \<and> sequence (nextRound now' c' g0) = sequence g0 @ [c']
   \<and> (step now ev g0 = Some g1 \<longrightarrow>
         sequence g1 = sequence g0 \<or> sequence g1 = []
         \<or> sequence g1 = sequence g0 @ [last (sequence g1)])
   \<and> (timers gs = [] \<longrightarrow>
        (\<exists>t' g. playRounds t gs c cs = Some (t', g)
           \<and> sequence g = c # cs
           \<and> sequence (snd (simRepeat (t', g))) = c # cs
           \<and> length (sequence (snd (simRepeat (t', g)))) = Suc (length cs)
           \<and> timers (snd (simRepeat (t', g))) = [(fst (simRepeat (t', g)) + 450, NextRound)]
           \<and> (\<exists>t'' g''. simAdvance c' (simRepeat (t', g)) = Some (t'', g'')
                 \<and> sequence g'' = (c # cs) @ [c']
                 \<and> length (sequence g'') = Suc (Suc (length cs)))))
   \<and> (awaitingInput g0 \<and> sequence g0 = [Green] \<and> 100 \<le> now - lastTap g0 \<longrightarrow>
         handlePlayerPress now Green g0 =
           setTimeout now 450 NextRound (g0\<lparr>lastTap := now, playerIndex := 0\<rparr>)
         \<and> sequence (nextRound now' c' (handlePlayerPress now Green g0)) = [Green, c']
         \<and> length (sequence (nextRound now' c' (handlePlayerPress now Green g0))) = 2
         \<and> hd (sequence (nextRound now' c' (handlePlayerPress now Green g0))) = Green)"
proof -
  have 0: "sequence (init st) = []"
    by (simp add: init_def sequence_def)
  have n: "sequence (nextRound now' c' g0) = sequence g0 @ [c']"
    by (simp add: nextRound_fields)
  have e: "step now ev g0 = Some g1 \<longrightarrow>
         sequence g1 = sequence g0 \<or> sequence g1 = []
         \<or> sequence g1 = sequence g0 @ [last (sequence g1)]"
    using seqStep_step [of now ev g0 g1] by (simp add: seqStep_def)
  have 1: "\<exists>t' g. playRounds t gs c cs = Some (t', g)
         \<and> sequence g = c # cs
         \<and> sequence (snd (simRepeat (t', g))) = c # cs
         \<and> length (sequence (snd (simRepeat (t', g)))) = Suc (length cs)
         \<and> timers (snd (simRepeat (t', g))) = [(fst (simRepeat (t', g)) + 450, NextRound)]
         \<and> (\<exists>t'' g''. simAdvance c' (simRepeat (t', g)) = Some (t'', g'')
               \<and> sequence g'' = (c # cs) @ [c']
               \<and> length (sequence g'') = Suc (Suc (length cs)))"
    if idle: "timers gs = []"
  proof -
    from playRounds_ready [OF idle, of t c cs] obtain t1 g1 where
      p: "playRounds t gs c cs = Some (t1, g1)" and r: "ready g1" and s: "sequence g1 = c # cs"
      by blast
    from repeat_completes [OF r, of t1] obtain t2 where
      q: "simRepeat (t1, g1) =
        (t2, g1\<lparr>lastTap := t2, playerIndex := 0, timers := [(t2 + 450, NextRound)]\<rparr>)" ..
    from round_keeps_ready [OF r, of c' t1] obtain t3 g3 where
      a: "simAdvance c' (simRepeat (t1, g1)) = Some (t3, g3)"
      and s3: "sequence g3 = sequence g1 @ [c']"
      by blast
    show ?thesis
      using p s a s3 by (intro exI [of _ t1] exI [of _ g1]) (simp add: q)
  qed
  have 2: "handlePlayerPress now Green g0 =
           setTimeout now 450 NextRound (g0\<lparr>lastTap := now, playerIndex := 0\<rparr>)
         \<and> sequence (nextRound now' c' (handlePlayerPress now Green g0)) = [Green, c']
         \<and> length (sequence (nextRound now' c' (handlePlayerPress now Green g0))) = 2
         \<and> hd (sequence (nextRound now' c' (handlePlayerPress now Green g0))) = Green"
    if h: "awaitingInput g0" "sequence g0 = [Green]" "100 \<le> now - lastTap g0"
  proof -
    have i: "playerIndex g0 = 0"
      using h by (simp add: awaitingInput_def)
    have "Green = sequence g0 ! playerIndex g0"
      using h i by simp
    from press_match [OF h(1) this h(3)]
    have m: "handlePlayerPress now Green g0 =
        setTimeout now 450 NextRound (g0\<lparr>lastTap := now, playerIndex := 0\<rparr>)"
      using h i by simp
    have "sequence (handlePlayerPress now Green g0) = [Green]"
      unfolding m using h by (simp add: setTimeout_def)
    then show ?thesis
      using m by (simp add: nextRound_fields)
  qed
  from 0 n e 1 2 show ?thesis
    by blast
qed

theorem sequence_grows_by_one_per_round_witness:
  "awaitingInput awaiting_after_ignored \<and> sequence awaiting_after_ignored = [Green]
   \<and> 100 \<le> 2000 - lastTap awaiting_after_ignored
   \<and> handlePlayerPress 2000 Green awaiting_after_ignored =
       setTimeout 2000 450 NextRound (awaiting_after_ignored\<lparr>lastTap := 2000, playerIndex := 0\<rparr>)
   \<and> sequence (nextRound 2450 Blue (handlePlayerPress 2000 Green awaiting_after_ignored))
       = [Green, Blue]
   \<and> step 2000 (PointerDown Green) awaiting_after_ignored
       = Some (handlePlayerPress 2000 Green awaiting_after_ignored)
   \<and> timers awaiting_level_2 = [] \<and> sequence awaiting_level_2 = [Green, Red]
   \<and> map_option level (map_option snd (playRounds 4000 awaiting_level_2 Yellow [Red, Blue]))
       = Some 3
   \<and> map_option sequence (map_option snd (playRounds 4000 awaiting_level_2 Yellow [Red, Blue]))
       = Some [Yellow, Red, Blue]"
proof -
  have a: "awaitingInput awaiting_after_ignored" "sequence awaiting_after_ignored = [Green]"
    "100 \<le> 2000 - lastTap awaiting_after_ignored"
    by (simp_all add: awaiting_after_ignored_def awaitingInput_def sequence_def)
  have i: "timers awaiting_level_2 = []" "sequence awaiting_level_2 = [Green, Red]"
    by (simp_all add: awaiting_level_2_def sequence_def)
  have s: "step 2000 (PointerDown Green) awaiting_after_ignored
       = Some (handlePlayerPress 2000 Green awaiting_after_ignored)"
    by (simp add: step_def)
  note r = sequence_grows_by_one_per_round [where ?g0.0 = awaiting_after_ignored and now = 2000
      and c' = Blue and now' = 2450 and t = 4000 and gs = awaiting_level_2 and c = Yellow
      and cs = "[Red, Blue]" and ev = "PointerDown Green"
      and ?g1.0 = "handlePlayerPress 2000 Green awaiting_after_ignored"]
  from r have "timers awaiting_level_2 = [] \<longrightarrow>
      (\<exists>t' g. playRounds 4000 awaiting_level_2 Yellow [Red, Blue] = Some (t', g)
         \<and> sequence g = [Yellow, Red, Blue])"
    by blast
  with i obtain t' g where
    p: "playRounds 4000 awaiting_level_2 Yellow [Red, Blue] = Some (t', g)"
    and q: "sequence g = [Yellow, Red, Blue]"
    by blast
  have b: "map_option sequence (map_option snd (playRounds 4000 awaiting_level_2 Yellow [Red, Blue]))
       = Some [Yellow, Red, Blue]"
    using p q by simp
  have c: "map_option level (map_option snd (playRounds 4000 awaiting_level_2 Yellow [Red, Blue]))
       = Some 3"
    by (simp add: playRounds_def simAdvance_def simRepeat_def simTimer_def simPress_def
        awaiting_level_2_def game_defs)
  show ?thesis
    using a b c i s r by blast
qed

section \<open>Presentations in progress\<close>





section \<open>Requests to the file server\<close>

text \<open>
  C9, as stated, fails: the extension decides the content type of a file that is served,
  not of every response. The request for the missing \<^verbatim>\<open>/missing.css\<close> is answered 404
  with the content type \<^verbatim>\<open>text/html\<close>, not \<^verbatim>\<open>text/css\<close>, and the request for the
  directory \<^verbatim>\<open>/sounds\<close> is answered 500 with no content type at all.
\<close>

theorem error_response_content_type_counterexample:
  "status (handleRequest example_env ''/missing.css'') = 404
   \<and> contentType (handleRequest example_env ''/missing.css'') = Some ''text/html''
   \<and> contentType (handleRequest example_env ''/missing.css'') \<noteq> Some ''text/css''
   \<and> status (handleRequest example_env ''/sounds'') = 500
   \<and> contentType (handleRequest example_env ''/sounds'') = None"
  by (simp add: handleRequest_def filePathOf_def example_env_def contentTypeOf_def mimeTypes_def
      toLowerCase_def lowerChar_def)

lemma contentTypeOf_table:
  "contentTypeOf ''.html'' = ''text/html''"
  "contentTypeOf ''.js'' = ''text/javascript''"
  "contentTypeOf ''.css'' = ''text/css''"
  "ext \<noteq> ''.html'' \<Longrightarrow> ext \<noteq> ''.js'' \<Longrightarrow> ext \<noteq> ''.css'' \<Longrightarrow> contentTypeOf ext = ''text/plain''"
  by (simp_all add: contentTypeOf_def mimeTypes_def)

text \<open>
  C9, amended. The root path is answered exactly as \<^verbatim>\<open>/game.html\<close>. When the file is
  read, the response is 200 with the bytes of the file and the content type that the table
  gives for the extension of the file path in lower case: \<^verbatim>\<open>text/html\<close> for
  \<^verbatim>\<open>.html\<close>, \<^verbatim>\<open>text/javascript\<close> for \<^verbatim>\<open>.js\<close>, \<^verbatim>\<open>text/css\<close> for \<^verbatim>\<open>.css\<close> and
  \<^verbatim>\<open>text/plain\<close> for anything else. When the file does not exist, the response is 404
  with a one-line HTML body and the content type \<^verbatim>\<open>text/html\<close>; any other read failure
  gives 500, with no content type and the error as body.
\<close>

theorem static_file_responses:
  "handleRequest env ''/'' = handleRequest env ''/game.html''
   \<and> (fsReadFile env (filePathOf env url) = Inr data \<longrightarrow>
        handleRequest env url =
          \<lparr>status = 200,
           contentType = Some (contentTypeOf (toLowerCase (pathExtname env (filePathOf env url)))),
           body = data\<rparr>)
   \<and> contentTypeOf ''.html'' = ''text/html''
   \<and> contentTypeOf ''.js'' = ''text/javascript''
   \<and> contentTypeOf ''.css'' = ''text/css''
   \<and> (ext \<noteq> ''.html'' \<longrightarrow> ext \<noteq> ''.js'' \<longrightarrow> ext \<noteq> ''.css'' \<longrightarrow>
        contentTypeOf ext = ''text/plain'')
   \<and> (fsReadFile env (filePathOf env url) = Inl err \<longrightarrow> errCode err = ''ENOENT'' \<longrightarrow>
        handleRequest env url =
          \<lparr>status = 404, contentType = Some ''text/html'',
           body = ''<h1>404 - File Not Found</h1>''\<rparr>)
   \<and> (fsReadFile env (filePathOf env url) = Inl err \<longrightarrow> errCode err \<noteq> ''ENOENT'' \<longrightarrow>
        handleRequest env url =
          \<lparr>status = 500, contentType = None, body = ''Server Error: '' @ errText err\<rparr>)"
proof -
  have "handleRequest env ''/'' = handleRequest env ''/game.html''"
    by (simp add: handleRequest_def filePathOf_def)
  moreover have "fsReadFile env (filePathOf env url) = Inr data \<longrightarrow>
        handleRequest env url =
          \<lparr>status = 200,
           contentType = Some (contentTypeOf (toLowerCase (pathExtname env (filePathOf env url)))),
           body = data\<rparr>"
    by (simp add: handleRequest_def)
  moreover have "fsReadFile env (filePathOf env url) = Inl err \<longrightarrow> errCode err = ''ENOENT'' \<longrightarrow>
        handleRequest env url =
          \<lparr>status = 404, contentType = Some ''text/html'',
           body = ''<h1>404 - File Not Found</h1>''\<rparr>"
    by (simp add: handleRequest_def)
  moreover have "fsReadFile env (filePathOf env url) = Inl err \<longrightarrow> errCode err \<noteq> ''ENOENT'' \<longrightarrow>
        handleRequest env url =
          \<lparr>status = 500, contentType = None, body = ''Server Error: '' @ errText err\<rparr>"
    by (simp add: handleRequest_def)
  ultimately show ?thesis
    using contentTypeOf_table(1-3) contentTypeOf_table(4) [of ext] by blast
qed

theorem static_file_responses_witness:
  "fsReadFile example_env (filePathOf example_env ''/GAME.JS'') = Inr ''(() => {})();''
   \<and> handleRequest example_env ''/GAME.JS'' =
       \<lparr>status = 200, contentType = Some ''text/javascript'', body = ''(() => {})();''\<rparr>
   \<and> handleRequest example_env ''/'' =
       \<lparr>status = 200, contentType = Some ''text/html'', body = ''<!doctype html>''\<rparr>
   \<and> ''.wav'' \<noteq> ''.html'' \<and> ''.wav'' \<noteq> ''.js'' \<and> ''.wav'' \<noteq> ''.css''
   \<and> contentTypeOf ''.wav'' = ''text/plain''
   \<and> fsReadFile example_env (filePathOf example_env ''/missing.html'') =
       Inl \<lparr>errCode = ''ENOENT'', errText = ''Error: ENOENT: no such file or directory''\<rparr>
   \<and> status (handleRequest example_env ''/missing.html'') = 404
   \<and> fsReadFile example_env (filePathOf example_env ''/sounds'') =
       Inl \<lparr>errCode = ''EISDIR'',
            errText = ''Error: EISDIR: illegal operation on a directory, read''\<rparr>
   \<and> ''EISDIR'' \<noteq> ''ENOENT''
   \<and> status (handleRequest example_env ''/sounds'') = 500"
proof -
  have a: "fsReadFile example_env (filePathOf example_env ''/GAME.JS'') = Inr ''(() => {})();''"
    "fsReadFile example_env (filePathOf example_env ''/game.html'') = Inr ''<!doctype html>''"
    "fsReadFile example_env (filePathOf example_env ''/missing.html'') =
       Inl \<lparr>errCode = ''ENOENT'', errText = ''Error: ENOENT: no such file or directory''\<rparr>"
    "fsReadFile example_env (filePathOf example_env ''/sounds'') =
       Inl \<lparr>errCode = ''EISDIR'',
            errText = ''Error: EISDIR: illegal operation on a directory, read''\<rparr>"
    by (simp_all add: example_env_def filePathOf_def)
  have b: "contentTypeOf (toLowerCase (pathExtname example_env (filePathOf example_env ''/GAME.JS'')))
      = ''text/javascript''"
    "contentTypeOf (toLowerCase (pathExtname example_env (filePathOf example_env ''/game.html'')))
      = ''text/html''"
    by (simp_all add: example_env_def filePathOf_def contentTypeOf_def mimeTypes_def
        toLowerCase_def lowerChar_def)
  have c: "''.wav'' \<noteq> ''.html''" "''.wav'' \<noteq> ''.js''" "''.wav'' \<noteq> ''.css''"
    "''EISDIR'' \<noteq> ''ENOENT''"
    by simp_all
  note r1 = static_file_responses [where env = example_env and url = "''/GAME.JS''"
      and data = "''(() => {})();''" and ext = "''.wav''"]
  note r2 = static_file_responses [where env = example_env and url = "''/game.html''"
      and data = "''<!doctype html>''"]
  note r3 = static_file_responses [where env = example_env and url = "''/missing.html''"
      and err = "\<lparr>errCode = ''ENOENT'', errText = ''Error: ENOENT: no such file or directory''\<rparr>"]
  note r4 = static_file_responses [where env = example_env and url = "''/sounds''"
      and err = "\<lparr>errCode = ''EISDIR'',
            errText = ''Error: EISDIR: illegal operation on a directory, read''\<rparr>"]
  have 1: "handleRequest example_env ''/GAME.JS'' =
       \<lparr>status = 200, contentType = Some ''text/javascript'', body = ''(() => {})();''\<rparr>"
    using r1 a(1) b(1) by simp
  have 2: "handleRequest example_env ''/'' =
       \<lparr>status = 200, contentType = Some ''text/html'', body = ''<!doctype html>''\<rparr>"
    using r2 a(2) b(2) by simp
  have 3: "contentTypeOf ''.wav'' = ''text/plain''"
    using r1 [THEN conjunct2, THEN conjunct2, THEN conjunct2, THEN conjunct2, THEN conjunct2,
        THEN conjunct1] c(1-3) by (rule mp [OF mp [OF mp]])
  have 4: "status (handleRequest example_env ''/missing.html'') = 404"
    using r3 a(3) by simp
  have 5: "status (handleRequest example_env ''/sounds'') = 500"
    using r4 a(4) by simp
  show ?thesis
    by (intro conjI a(1) a(3) a(4) c 1 2 3 4 5)
qed

end
